theory Spec2Isabelle
  imports Main "HOL-Library.Word" "HOL-Library.Sublist"
begin

section \<open>Data model of \<open>tools/fix_icons.py\<close>\<close>

text \<open>
  The tool walks a list of paths, reads the first four bytes of each file, re-encodes
  files that carry JPEG data, and makes a near-white background transparent. The image
  library and the file system are not part of the repository: they appear here as the
  fields of an environment, and every call that can raise in Python returns the error
  as a value, together with the state it leaves where it has changed something.
\<close>

type_synonym byte = "8 word"
type_synonym path = string

text \<open>An RGBA pixel as \<open>getdata()\<close> yields it after \<open>convert("RGBA")\<close>: a 4-tuple of
  channel values between 0 and 255.\<close>

type_synonym pixel = "byte \<times> byte \<times> byte \<times> byte"

fun item0 :: "pixel \<Rightarrow> byte" where "item0 (r, g, b, a) = r"
fun item1 :: "pixel \<Rightarrow> byte" where "item1 (r, g, b, a) = g"
fun item2 :: "pixel \<Rightarrow> byte" where "item2 (r, g, b, a) = b"
fun item3 :: "pixel \<Rightarrow> byte" where "item3 (r, g, b, a) = a"

text \<open>
  An image object of the library: its colour mode (the mode string, \<open>''RGB''\<close>,
  \<open>''RGBA''\<close>, \<open>''L''\<close>, ...), its dimensions, and its pixel data seen through
  \<open>convert("RGBA").getdata()\<close>, row-major from the top-left pixel. \<open>Image.open\<close> is lazy:
  it reads the header only, and the pixel data is decoded at the first access
  (\<open>load\<close>, \<open>convert\<close>). \<open>pixels = None\<close> is an image whose data does not decode.
\<close>

record image =
  mode :: string
  dims :: "nat \<times> nat"
  pixels :: "pixel list option"

datatype error =
    FileNotFound
  | PermissionDenied
  | UnidentifiedImage
  | DecodeFailure
  | EncodeFailure
  | IndexError

datatype log_line =
    Scanning path
  | DetectedJpeg path
  | ConvertedToPng path
  | RemovedImport path
  | RemovedImportTransparency path
  | RemovedWhiteBackground path
  | ErrorProcessing path error
  | Finished nat nat

text \<open>
  The collaborators: the codec (\<open>decode\<close> is \<open>Image.open\<close> on the bytes of a file,
  \<open>encode_png\<close> is what \<open>save(_, "PNG")\<close> writes for a mode, a size and pixel data) and
  the access rights of the paths. They do not change during a run.
\<close>

record env =
  decode :: "byte list \<Rightarrow> image option"
  encode_png :: "string \<Rightarrow> nat \<times> nat \<Rightarrow> pixel list \<Rightarrow> byte list option"
  readable :: "path \<Rightarrow> bool"
  writable :: "path \<Rightarrow> bool"
  removable :: "path \<Rightarrow> bool"

text \<open>What a run changes: the bytes of the files, the console, and the two counters
  of \<open>fix_icons\<close>.\<close>

record run_state =
  files :: "path \<Rightarrow> byte list option"
  console :: "log_line list"
  fixed_count :: nat
  transparent_count :: nat

section \<open>\<open>make_transparent\<close>\<close>

text \<open>The test of lines 71 and 75: all three colour channels above 240.\<close>

definition near_white :: "pixel \<Rightarrow> bool" where
  "near_white item \<longleftrightarrow> 240 < item0 item \<and> 240 < item1 item \<and> 240 < item2 item"

text \<open>The loop of lines 72 to 78, appending to \<open>newData\<close> one pixel at a time.\<close>

fun newData_loop :: "pixel list \<Rightarrow> pixel list \<Rightarrow> pixel list" where
  "newData_loop [] newData = newData"
| "newData_loop (item # rest) newData =
     (if near_white item
      then newData_loop rest (newData @ [(255, 255, 255, 0)])
      else newData_loop rest (newData @ [item]))"

definition newData :: "pixel list \<Rightarrow> pixel list" where
  "newData datas = newData_loop datas []"

text \<open>\<open>img.convert("RGBA")\<close> decodes the pixel data and sets the mode;
  \<open>img.putdata\<close> replaces the data and keeps mode and size.\<close>

definition convert_RGBA :: "image \<Rightarrow> error + image" where
  "convert_RGBA img =
     (case pixels img of
        None \<Rightarrow> Inl DecodeFailure
      | Some d \<Rightarrow> Inr (img\<lparr>mode := ''RGBA''\<rparr>))"

definition getdata :: "image \<Rightarrow> pixel list" where
  "getdata img = (case pixels img of None \<Rightarrow> [] | Some d \<Rightarrow> d)"

definition putdata :: "image \<Rightarrow> pixel list \<Rightarrow> image" where
  "putdata img d = img\<lparr>pixels := Some d\<rparr>"

text \<open>Line 67, \<open>bg_color = datas[0]\<close>, raises on an image without pixels; line 71 is
  the verdict on the background.\<close>

definition bg_is_white :: "pixel list \<Rightarrow> error + bool" where
  "bg_is_white datas =
     (case datas of
        [] \<Rightarrow> Inl IndexError
      | bg_color # rest \<Rightarrow> Inr (near_white bg_color))"

text \<open>
  \<open>img.save(file_path, "PNG")\<close>. The library decodes the image if it has not yet, opens
  the file for writing, which empties it, and then runs the encoder. When the file
  cannot be opened nothing has changed; when the encoder raises, the file exists and
  is empty (the library removes it only if the call created it, and here it existed).
\<close>

definition save :: "env \<Rightarrow> image \<Rightarrow> path \<Rightarrow> run_state \<Rightarrow> error option \<times> run_state" where
  "save e img file_path s =
     (case pixels img of
        None \<Rightarrow> (Some DecodeFailure, s)
      | Some d \<Rightarrow>
          if \<not> writable e file_path then (Some PermissionDenied, s)
          else (case encode_png e (mode img) (dims img) d of
                  None \<Rightarrow> (Some EncodeFailure, s\<lparr>files := (files s)(file_path \<mapsto> [])\<rparr>)
                | Some bs \<Rightarrow> (None, s\<lparr>files := (files s)(file_path \<mapsto> bs)\<rparr>)))"

definition say :: "log_line \<Rightarrow> run_state \<Rightarrow> run_state" where
  "say l s = s\<lparr>console := console s @ [l]\<rparr>"

definition make_transparent ::
  "env \<Rightarrow> image \<Rightarrow> path \<Rightarrow> run_state \<Rightarrow> (error + bool) \<times> run_state" where
  "make_transparent e img file_path s =
     (case convert_RGBA img of
        Inl err \<Rightarrow> (Inl err, s)
      | Inr img1 \<Rightarrow>
          let datas = getdata img1 in
          (case bg_is_white datas of
             Inl err \<Rightarrow> (Inl err, s)
           | Inr False \<Rightarrow> (Inr False, s)
           | Inr True \<Rightarrow>
               (case save e (putdata img1 (newData datas)) file_path s of
                  (Some err, s1) \<Rightarrow> (Inl err, s1)
                | (None, s1) \<Rightarrow> (Inr True, say (RemovedWhiteBackground file_path) s1))))"

section \<open>\<open>fix_icons\<close>\<close>

definition jpeg_magic :: "byte list" where
  "jpeg_magic = [0xFF, 0xD8, 0xFF]"

definition png_magic :: "byte list" where
  "png_magic = [0x89, 0x50, 0x4E, 0x47]"

text \<open>Lines 15 and 16: the first four bytes of the file.\<close>

definition read_header :: "env \<Rightarrow> path \<Rightarrow> run_state \<Rightarrow> error + byte list" where
  "read_header e file_path s =
     (case files s file_path of
        None \<Rightarrow> Inl FileNotFound
      | Some bs \<Rightarrow> if readable e file_path then Inr (take 4 bs) else Inl PermissionDenied)"

text \<open>The two tests of lines 19 and 40, in the order of the \<open>if\<close> and the \<open>elif\<close>.\<close>

datatype encoding = JPEG | PNG | UNKNOWN

definition sniff :: "byte list \<Rightarrow> encoding" where
  "sniff header =
     (if prefix jpeg_magic header then JPEG
      else if prefix png_magic header then PNG
      else UNKNOWN)"

definition Image_open :: "env \<Rightarrow> path \<Rightarrow> run_state \<Rightarrow> error + image" where
  "Image_open e file_path s =
     (case files s file_path of
        None \<Rightarrow> Inl FileNotFound
      | Some bs \<Rightarrow>
          if \<not> readable e file_path then Inl PermissionDenied
          else (case decode e bs of
                  None \<Rightarrow> Inl UnidentifiedImage
                | Some img \<Rightarrow> Inr img))"

definition load :: "image \<Rightarrow> error + image" where
  "load img = (case pixels img of None \<Rightarrow> Inl DecodeFailure | Some d \<Rightarrow> Inr img)"

text \<open>Lines 32 to 35 and 46 to 49: the companion file is removed when it exists. The
  two places print different lines, hence the first argument.\<close>

definition remove_import ::
  "(path \<Rightarrow> log_line) \<Rightarrow> env \<Rightarrow> path \<Rightarrow> run_state \<Rightarrow> error + run_state" where
  "remove_import msg e file_path s =
     (let import_file = file_path @ ''.import'' in
      if files s import_file \<noteq> None
      then (if removable e import_file
            then Inr (say (msg import_file) (s\<lparr>files := (files s)(import_file := None)\<rparr>))
            else Inl PermissionDenied)
      else Inr s)"

text \<open>
  The body of the \<open>try\<close> statement, one function for each branch (the branch of
  line 19 in two parts: lines 26 to 37, which follow the repair, and lines 20 to 24
  before them). The result is the exception that left the body, if any, and the state
  reached: what was written, emptied or counted before an exception stays.
\<close>

definition after_repair :: "env \<Rightarrow> path \<Rightarrow> run_state \<Rightarrow> error option \<times> run_state" where
  "after_repair e file_path s3 =
     (case Image_open e file_path s3 of
        Inl err \<Rightarrow> (Some err, s3)
      | Inr img2 \<Rightarrow>
     (case make_transparent e img2 file_path s3 of
        (Inl err, s4) \<Rightarrow> (Some err, s4)
      | (Inr changed, s4) \<Rightarrow>
     (let s5 = (if changed
                then s4\<lparr>transparent_count := transparent_count s4 + 1\<rparr>
                else s4) in
      case remove_import RemovedImport e file_path s5 of
        Inl err \<Rightarrow> (Some err, s5)
      | Inr s6 \<Rightarrow> (None, s6\<lparr>fixed_count := fixed_count s6 + 1\<rparr>))))"

definition jpeg_branch :: "env \<Rightarrow> path \<Rightarrow> run_state \<Rightarrow> error option \<times> run_state" where
  "jpeg_branch e file_path s =
     (let s1 = say (DetectedJpeg file_path) s in
      case Image_open e file_path s1 of
        Inl err \<Rightarrow> (Some err, s1)
      | Inr img0 \<Rightarrow>
     (case load img0 of
        Inl err \<Rightarrow> (Some err, s1)
      | Inr img \<Rightarrow>
     (case save e img file_path s1 of
        (Some err, s2) \<Rightarrow> (Some err, s2)
      | (None, s2) \<Rightarrow> after_repair e file_path (say (ConvertedToPng file_path) s2))))"

definition png_branch :: "env \<Rightarrow> path \<Rightarrow> run_state \<Rightarrow> error option \<times> run_state" where
  "png_branch e file_path s =
     (case Image_open e file_path s of
        Inl err \<Rightarrow> (Some err, s)
      | Inr img \<Rightarrow>
          if mode img = ''RGB''
          then (case make_transparent e img file_path s of
                  (Inl err, s1) \<Rightarrow> (Some err, s1)
                | (Inr False, s1) \<Rightarrow> (None, s1)
                | (Inr True, s1) \<Rightarrow>
                    (let s2 = s1\<lparr>transparent_count := transparent_count s1 + 1\<rparr> in
                     case remove_import RemovedImportTransparency e file_path s2 of
                       Inl err \<Rightarrow> (Some err, s2)
                     | Inr s3 \<Rightarrow> (None, s3)))
          else (None, s))"

definition try_body :: "env \<Rightarrow> path \<Rightarrow> run_state \<Rightarrow> error option \<times> run_state" where
  "try_body e file_path s =
     (case read_header e file_path s of
        Inl err \<Rightarrow> (Some err, s)
      | Inr header \<Rightarrow>
          (case sniff header of
             JPEG \<Rightarrow> jpeg_branch e file_path s
           | PNG \<Rightarrow> png_branch e file_path s
           | UNKNOWN \<Rightarrow> (None, s)))"

text \<open>One iteration of the loop of line 13: the body, and the handler of line 51.\<close>

definition process_file :: "env \<Rightarrow> path \<Rightarrow> run_state \<Rightarrow> run_state" where
  "process_file e file_path s =
     (case try_body e file_path s of
        (None, s1) \<Rightarrow> s1
      | (Some err, s1) \<Rightarrow> say (ErrorProcessing file_path err) s1)"

primrec fix_icons_loop :: "env \<Rightarrow> path list \<Rightarrow> run_state \<Rightarrow> run_state" where
  "fix_icons_loop e [] s = s"
| "fix_icons_loop e (file_path # rest) s = fix_icons_loop e rest (process_file e file_path s)"

text \<open>
  \<open>fix_icons\<close>. The second argument is the list that \<open>glob\<close> returned for the root
  directory: the paths below it whose names end in \<open>.png\<close>. The counters start at zero
  and are printed in the last line.
\<close>

definition fix_icons :: "env \<Rightarrow> path \<Rightarrow> path list \<Rightarrow> run_state \<Rightarrow> run_state" where
  "fix_icons e root_dir found s =
     (let s0 = say (Scanning root_dir) (s\<lparr>fixed_count := 0, transparent_count := 0\<rparr>);
          s1 = fix_icons_loop e found s0
      in say (Finished (fixed_count s1) (transparent_count s1)) s1)"

section \<open>What an iteration would write\<close>

text \<open>
  Notions for the proofs, read off the code. What a call of \<open>save\<close> does to the file:
  nothing (the call is not reached, or the file cannot be opened), emptying (the encoder
  raises), or writing. Then what \<open>make_transparent\<close> does to the file of an image, what
  the repair of line 23 does to a file with given bytes, the byte strings that come out
  of the encoder, and the colour modes of the library that carry an alpha channel.
\<close>

datatype written = Kept | Emptied | Written "byte list"

fun bytes_after :: "written \<Rightarrow> byte list option \<Rightarrow> byte list option" where
  "bytes_after Kept c = c"
| "bytes_after Emptied c = Some []"
| "bytes_after (Written bs) c = Some bs"

definition try_save :: "env \<Rightarrow> path \<Rightarrow> string \<Rightarrow> nat \<times> nat \<Rightarrow> pixel list \<Rightarrow> written" where
  "try_save e file_path m dm d =
     (if \<not> writable e file_path then Kept
      else (case encode_png e m dm d of None \<Rightarrow> Emptied | Some bs \<Rightarrow> Written bs))"

definition rewrite_result :: "env \<Rightarrow> path \<Rightarrow> image \<Rightarrow> written" where
  "rewrite_result e file_path img =
     (case pixels img of
        None \<Rightarrow> Kept
      | Some d \<Rightarrow>
          if bg_is_white d = Inr True
          then try_save e file_path ''RGBA'' (dims img) (newData d)
          else Kept)"

definition repair_result :: "env \<Rightarrow> path \<Rightarrow> byte list \<Rightarrow> written" where
  "repair_result e file_path bs =
     (case decode e bs of
        None \<Rightarrow> Kept
      | Some img \<Rightarrow>
          (case pixels img of
             None \<Rightarrow> Kept
           | Some d \<Rightarrow> try_save e file_path (mode img) (dims img) d))"

definition png_output :: "env \<Rightarrow> byte list \<Rightarrow> bool" where
  "png_output e bs \<longleftrightarrow> (\<exists>m d px. encode_png e m d px = Some bs)"


text \<open>
  Two more for the second run: what is asked of the codec (the encoder writes the PNG
  magic number, and a file saved in mode RGBA is not opened in mode RGB), and the files
  whose iteration has nothing left to do, read off the tests of the branches.
\<close>

definition codec_ok :: "env \<Rightarrow> bool" where
  "codec_ok e \<longleftrightarrow>
     (\<forall>m d px bs. encode_png e m d px = Some bs \<longrightarrow> prefix png_magic bs) \<and>
     (\<forall>d px bs img. encode_png e ''RGBA'' d px = Some bs \<longrightarrow> decode e bs = Some img
        \<longrightarrow> mode img \<noteq> ''RGB'')"

definition settled :: "env \<Rightarrow> path \<Rightarrow> byte list option \<Rightarrow> bool" where
  "settled e file_path c =
     (case c of
        None \<Rightarrow> True
      | Some bs \<Rightarrow>
          \<not> readable e file_path \<or>
          (case sniff (take 4 bs) of
             UNKNOWN \<Rightarrow> True
           | JPEG \<Rightarrow> repair_result e file_path bs = Kept
           | PNG \<Rightarrow>
               (case decode e bs of
                  None \<Rightarrow> True
                | Some img \<Rightarrow> mode img \<noteq> ''RGB'' \<or> rewrite_result e file_path img = Kept)))"

section \<open>A small codec and file system for evaluation\<close>

text \<open>
  To run the definitions on concrete files: a file is a magic number, then a mode tag,
  the width, the height, and four bytes for each pixel. The pixel data decodes when
  its length fits the size. As in the library, JPEG data opens in mode L, RGB or CMYK
  and never with an alpha channel, PNG data here in mode RGB, RGBA or L, and the PNG
  encoder refuses mode CMYK.
\<close>

definition pack :: "pixel list \<Rightarrow> byte list" where
  "pack d = concat (map (\<lambda>(r, g, b, a). [r, g, b, a]) d)"

fun unpack :: "byte list \<Rightarrow> pixel list" where
  "unpack (r # g # b # a # rest) = (r, g, b, a) # unpack rest"
| "unpack rest = []"

definition mode_tag :: "string \<Rightarrow> byte option" where
  "mode_tag m =
     (if m = ''RGB'' then Some 0 else if m = ''RGBA'' then Some 1
      else if m = ''L'' then Some 2 else None)"

definition png_tag_mode :: "byte \<Rightarrow> string option" where
  "png_tag_mode t =
     (if t = 0 then Some ''RGB'' else if t = 1 then Some ''RGBA''
      else if t = 2 then Some ''L'' else None)"

definition jpeg_tag_mode :: "byte \<Rightarrow> string option" where
  "jpeg_tag_mode t =
     (if t = 0 then Some ''RGB'' else if t = 2 then Some ''L''
      else if t = 3 then Some ''CMYK'' else None)"

fun raw_parse :: "(byte \<Rightarrow> string option) \<Rightarrow> byte list \<Rightarrow> image option" where
  "raw_parse modes (t # w # h # rest) =
     (case modes t of
        None \<Rightarrow> None
      | Some m \<Rightarrow>
          Some \<lparr>mode = m, dims = (unat w, unat h),
                pixels = (if length rest = 4 * unat w * unat h
                          then Some (unpack rest) else None)\<rparr>)"
| "raw_parse modes rest = None"

definition raw_decode :: "byte list \<Rightarrow> image option" where
  "raw_decode bs =
     (if prefix png_magic bs then raw_parse png_tag_mode (drop 4 bs)
      else if prefix jpeg_magic bs then raw_parse jpeg_tag_mode (drop 3 bs)
      else None)"

definition raw_encode_png :: "string \<Rightarrow> nat \<times> nat \<Rightarrow> pixel list \<Rightarrow> byte list option" where
  "raw_encode_png m d px =
     (case mode_tag m of
        None \<Rightarrow> None
      | Some t \<Rightarrow> Some (png_magic @ [t, of_nat (fst d), of_nat (snd d)] @ pack px))"

definition raw_env :: env where
  "raw_env = \<lparr>decode = raw_decode, encode_png = raw_encode_png,
              readable = (\<lambda>p. True), writable = (\<lambda>p. True), removable = (\<lambda>p. True)\<rparr>"


text \<open>The state before a run, for given files.\<close>

definition fresh :: "(path \<Rightarrow> byte list option) \<Rightarrow> run_state" where
  "fresh f = \<lparr>files = f, console = [], fixed_count = 0, transparent_count = 0\<rparr>"

text \<open>Two pixels, the first one white: as a PNG in mode RGB, and the same behind the
  JPEG magic number. Then one pixel in mode CMYK behind the JPEG magic number.\<close>

definition white_png :: "byte list" where
  "white_png = [0x89, 0x50, 0x4E, 0x47, 0, 2, 1, 255, 255, 255, 255, 1, 2, 3, 255]"

definition white_jpg :: "byte list" where
  "white_jpg = [0xFF, 0xD8, 0xFF, 0, 2, 1, 255, 255, 255, 255, 1, 2, 3, 255]"

definition cmyk_jpg :: "byte list" where
  "cmyk_jpg = [0xFF, 0xD8, 0xFF, 3, 1, 1, 9, 9, 9, 255]"

lemmas run_defs =
  process_file_def try_body_def read_header_def sniff_def png_branch_def jpeg_branch_def
  after_repair_def
  Image_open_def load_def make_transparent_def convert_RGBA_def getdata_def bg_is_white_def
  save_def putdata_def say_def remove_import_def newData_def near_white_def
  png_magic_def jpeg_magic_def

lemmas raw_defs =
  raw_env_def raw_decode_def raw_encode_png_def png_tag_mode_def jpeg_tag_mode_def
  mode_tag_def pack_def fresh_def white_png_def white_jpg_def cmyk_jpg_def

section \<open>The alpha rewrite\<close>

lemma newData_loop_length:
  "length (newData_loop datas acc) = length acc + length datas"
  by (induction datas arbitrary: acc) auto

lemma newData_loop_map:
  "newData_loop datas acc =
     acc @ map (\<lambda>item. if near_white item then (255, 255, 255, 0) else item) datas"
  by (induction datas arbitrary: acc) auto

lemma newData_nth:
  "i < length datas \<Longrightarrow>
     newData datas ! i = (if near_white (datas ! i) then (255, 255, 255, 0) else datas ! i)"
  by (simp add: newData_def newData_loop_map)

text \<open>
  C5. The rewrite keeps the size of the grid and the number of pixels; a pixel whose
  three colour channels are all above 240 becomes \<open>(255, 255, 255, 0)\<close>, and every
  other pixel is passed through as it is, alpha included.
\<close>

theorem alpha_rewrite_per_pixel:
  "dims (putdata img (newData datas)) = dims img \<and>
   length (newData datas) = length datas \<and>
   (\<forall>i < length datas.
      newData datas ! i =
        (if 240 < item0 (datas ! i) \<and> 240 < item1 (datas ! i) \<and> 240 < item2 (datas ! i)
         then (255, 255, 255, 0)
         else datas ! i))"
  using newData_nth [of _ datas]
  by (simp add: putdata_def newData_def newData_loop_length near_white_def)

theorem alpha_rewrite_per_pixel_witness:
  "length (newData [(255, 255, 255, 255), (10, 20, 30, 255), (241, 250, 255, 7), (240, 255, 255, 9)]) = 4 \<and>
   newData [(255, 255, 255, 255), (10, 20, 30, 255), (241, 250, 255, 7), (240, 255, 255, 9)] ! 2
     = (255, 255, 255, 0) \<and>
   newData [(255, 255, 255, 255), (10, 20, 30, 255), (241, 250, 255, 7), (240, 255, 255, 9)] ! 3
     = (240, 255, 255, 9)"
  using alpha_rewrite_per_pixel
    [of "\<lparr>mode = ''RGBA'', dims = (2, 2), pixels = None\<rparr>"
        "[(255, 255, 255, 255), (10, 20, 30, 255), (241, 250, 255, 7), (240, 255, 255, 9)]"]
  by simp

text \<open>
  C1, as stated: every pixel of the rewritten grid has the colour channels of the input
  pixel. It fails on a near-white pixel that is not pure white: \<open>(241, 242, 243, 255)\<close>
  becomes \<open>(255, 255, 255, 0)\<close>, so its red channel changes from 241 to 255.
\<close>

theorem colour_channels_counterexample:
  "item0 (newData [(241, 242, 243, 255)] ! 0) \<noteq> item0 ([(241, 242, 243, 255)] ! 0)"
  by (simp add: newData_def near_white_def)

text \<open>
  C1, amended: a pixel with some colour channel at or below 240 is returned unchanged,
  colour and alpha; a pixel whose three colour channels are all above 240 is returned
  with colour \<open>(255, 255, 255)\<close> and alpha 0. So colour and alpha can change only at
  near-white pixels.
\<close>

theorem alpha_rewrite_frame:
  "\<forall>i < length datas.
     (\<not> (240 < item0 (datas ! i) \<and> 240 < item1 (datas ! i) \<and> 240 < item2 (datas ! i))
        \<longrightarrow> newData datas ! i = datas ! i) \<and>
     (240 < item0 (datas ! i) \<and> 240 < item1 (datas ! i) \<and> 240 < item2 (datas ! i)
        \<longrightarrow> item0 (newData datas ! i) = 255 \<and> item1 (newData datas ! i) = 255 \<and>
            item2 (newData datas ! i) = 255 \<and> item3 (newData datas ! i) = 0)"
  by (simp add: newData_nth near_white_def)

theorem alpha_rewrite_frame_witness:
  "newData [(241, 242, 243, 255), (240, 242, 243, 77)] ! 1 = (240, 242, 243, 77) \<and>
   item0 (newData [(241, 242, 243, 255), (240, 242, 243, 77)] ! 0) = 255 \<and>
   item3 (newData [(241, 242, 243, 255), (240, 242, 243, 77)] ! 0) = 0"
  using alpha_rewrite_frame [of "[(241, 242, 243, 255), (240, 242, 243, 77)]", THEN spec, of 0]
    alpha_rewrite_frame [of "[(241, 242, 243, 255), (240, 242, 243, 77)]", THEN spec, of 1]
  by simp

section \<open>The verdict on the background\<close>

lemma make_transparent_not_white:
  "pixels img = Some (px # rest) \<Longrightarrow> \<not> near_white px \<Longrightarrow>
     make_transparent e img file_path s = (Inr False, s)"
  by (simp add: make_transparent_def convert_RGBA_def getdata_def bg_is_white_def)

lemma make_transparent_white:
  "pixels img = Some (px # rest) \<Longrightarrow> near_white px \<Longrightarrow>
     fst (make_transparent e img file_path s) \<noteq> Inr False"
  by (simp add: make_transparent_def convert_RGBA_def getdata_def bg_is_white_def
      split: prod.splits option.splits)

text \<open>
  C6. The verdict reads the first pixel of the row-major data, the pixel at (0, 0),
  and nothing else: it is positive exactly when red, green and blue are all strictly
  above 240, whatever the alpha and whatever the other pixels. With a negative verdict,
  and only then, \<open>make_transparent\<close> returns \<open>False\<close>.
\<close>

theorem background_verdict:
  assumes "pixels img = Some ((r, g, b, a) # rest)"
  shows "bg_is_white (getdata img) = Inr (240 < r \<and> 240 < g \<and> 240 < b) \<and>
         (fst (make_transparent e img file_path s) = Inr False
            \<longleftrightarrow> \<not> (240 < r \<and> 240 < g \<and> 240 < b))"
  using assms make_transparent_not_white [of img "(r, g, b, a)" rest e file_path s]
    make_transparent_white [of img "(r, g, b, a)" rest e file_path s]
  by (auto simp add: getdata_def bg_is_white_def near_white_def)

theorem background_verdict_witness:
  "pixels \<lparr>mode = ''RGB'', dims = (2, 1),
           pixels = Some [(240, 255, 255, 255), (255, 255, 255, 255)]\<rparr>
     = Some [(240, 255, 255, 255), (255, 255, 255, 255)] \<and>
   bg_is_white (getdata \<lparr>mode = ''RGB'', dims = (2, 1),
           pixels = Some [(240, 255, 255, 255), (255, 255, 255, 255)]\<rparr>) = Inr False \<and>
   fst (make_transparent raw_env
          \<lparr>mode = ''RGB'', dims = (2, 1),
           pixels = Some [(240, 255, 255, 255), (255, 255, 255, 255)]\<rparr>
          ''a.png'' (fresh Map.empty)) = Inr False"
  using background_verdict
    [of "\<lparr>mode = ''RGB'', dims = (2, 1),
          pixels = Some [(240, 255, 255, 255), (255, 255, 255, 255)]\<rparr>"
        240 255 255 255 "[(255, 255, 255, 255)]" raw_env "''a.png''" "fresh Map.empty"]
  by simp

section \<open>The sniffer\<close>

lemma prefix_take4:
  assumes "length m \<le> 4"
  shows "prefix m (take 4 bs) \<longleftrightarrow> prefix m bs"
proof
  assume "prefix m (take 4 bs)"
  then show "prefix m bs"
    using take_is_prefix prefix_order.trans by blast
next
  assume "prefix m bs"
  then obtain zs where "bs = m @ zs"
    by (auto simp add: prefix_def)
  then show "prefix m (take 4 bs)"
    using assms by simp
qed

lemma magic_disjoint:
  "prefix jpeg_magic bs \<Longrightarrow> \<not> prefix png_magic bs"
  by (cases bs) (simp_all add: jpeg_magic_def png_magic_def)

text \<open>
  C7. Of a file that can be read, the header is its first four bytes. The header is
  JPEG exactly when the file begins with FF D8 FF, PNG exactly when it begins with
  89 50 4E 47, and unknown otherwise; on an unknown header the iteration changes
  nothing: no file, no counter, no line on the console.
\<close>

theorem content_sniffer:
  assumes "files s file_path = Some bs" and "readable e file_path"
  shows "read_header e file_path s = Inr (take 4 bs) \<and>
         (sniff (take 4 bs) = JPEG \<longleftrightarrow> prefix [0xFF, 0xD8, 0xFF] bs) \<and>
         (sniff (take 4 bs) = PNG \<longleftrightarrow> prefix [0x89, 0x50, 0x4E, 0x47] bs) \<and>
         (sniff (take 4 bs) = UNKNOWN \<longleftrightarrow>
            \<not> prefix [0xFF, 0xD8, 0xFF] bs \<and> \<not> prefix [0x89, 0x50, 0x4E, 0x47] bs) \<and>
         (sniff (take 4 bs) = UNKNOWN \<longrightarrow>
            try_body e file_path s = (None, s) \<and> process_file e file_path s = s)"
  using assms prefix_take4 [of jpeg_magic bs] prefix_take4 [of png_magic bs]
    magic_disjoint [of bs]
  by (auto simp add: read_header_def sniff_def try_body_def process_file_def
      jpeg_magic_def png_magic_def)

theorem content_sniffer_witness:
  "files (fresh [''a.png'' \<mapsto> [0x47, 0x49, 0x46, 0x38, 0x39, 0x61]]) ''a.png''
     = Some [0x47, 0x49, 0x46, 0x38, 0x39, 0x61] \<and>
   readable raw_env ''a.png'' \<and>
   sniff (take 4 [0x47, 0x49, 0x46, 0x38, 0x39, 0x61]) = UNKNOWN \<and>
   process_file raw_env ''a.png'' (fresh [''a.png'' \<mapsto> [0x47, 0x49, 0x46, 0x38, 0x39, 0x61]])
     = fresh [''a.png'' \<mapsto> [0x47, 0x49, 0x46, 0x38, 0x39, 0x61]]"
  using content_sniffer
    [of "fresh [''a.png'' \<mapsto> [0x47, 0x49, 0x46, 0x38, 0x39, 0x61]]" "''a.png''"
        "[0x47, 0x49, 0x46, 0x38, 0x39, 0x61]" raw_env]
  by (simp add: fresh_def raw_env_def)

section \<open>What one iteration can touch\<close>

lemma say_simps [simp]:
  "files (say l s) = files s"
  "fixed_count (say l s) = fixed_count s"
  "transparent_count (say l s) = transparent_count s"
  "console (say l s) = console s @ [l]"
  by (simp_all add: say_def)

lemma Image_open_say [simp]:
  "Image_open e p (say l s) = Image_open e p s"
  by (simp add: Image_open_def)

lemma png_branch_frame:
  "x \<noteq> p \<Longrightarrow> x \<noteq> p @ ''.import'' \<Longrightarrow> files (snd (png_branch e p s)) x = files s x"
  by (auto simp add: png_branch_def remove_import_def Let_def make_transparent_def
        convert_RGBA_def getdata_def save_def putdata_def
        split: sum.splits option.splits bool.splits if_splits prod.splits)

lemma jpeg_branch_frame:
  "x \<noteq> p \<Longrightarrow> x \<noteq> p @ ''.import'' \<Longrightarrow> files (snd (jpeg_branch e p s)) x = files s x"
  by (auto simp add: jpeg_branch_def after_repair_def remove_import_def Let_def
        make_transparent_def convert_RGBA_def getdata_def save_def putdata_def load_def
        split: sum.splits option.splits bool.splits if_splits prod.splits)

lemma process_file_frame:
  "x \<noteq> p \<Longrightarrow> x \<noteq> p @ ''.import'' \<Longrightarrow> files (process_file e p s) x = files s x"
  using png_branch_frame [of x p e s] jpeg_branch_frame [of x p e s]
  by (auto simp add: process_file_def try_body_def
      split: sum.splits encoding.splits prod.splits option.splits)

section \<open>Files that are left alone\<close>

lemma png_name_not_import:
  assumes "suffix ''.png'' p"
  shows "p \<noteq> q @ ''.import''"
proof
  assume "p = q @ ''.import''"
  moreover from assms obtain zs where "p = zs @ ''.png''"
    by (auto simp add: suffix_def)
  ultimately have "last (q @ ''.import'') = last (zs @ ''.png'')"
    by simp
  then show False
    by simp
qed

lemma ineligible_png_step:
  assumes "files s p = Some bs" and "readable e p"
    and "prefix [0x89, 0x50, 0x4E, 0x47] bs"
    and "decode e bs = Some img"
    and "mode img \<noteq> ''RGB'' \<or>
         (\<exists>r g b a rest. pixels img = Some ((r, g, b, a) # rest) \<and>
            (r \<le> 240 \<or> g \<le> 240 \<or> b \<le> 240))"
  shows "process_file e p s = s"
proof -
  have hd: "sniff (take 4 bs) = PNG"
    using assms(3) prefix_take4 [of png_magic bs] magic_disjoint [of "take 4 bs"]
    by (auto simp add: sniff_def png_magic_def)
  have op: "Image_open e p s = Inr img"
    using assms by (simp add: Image_open_def)
  have "png_branch e p s = (None, s)"
  proof (cases "mode img = ''RGB''")
    case False
    then show ?thesis using op by (simp add: png_branch_def)
  next
    case True
    then obtain r g b a rest where px: "pixels img = Some ((r, g, b, a) # rest)"
      and low: "r \<le> 240 \<or> g \<le> 240 \<or> b \<le> 240"
      using assms(5) by blast
    have "\<not> near_white (r, g, b, a)"
      using low by (auto simp add: near_white_def)
    then have "make_transparent e img p s = (Inr False, s)"
      using px make_transparent_not_white by blast
    then show ?thesis using op True by (simp add: png_branch_def)
  qed
  then show ?thesis
    using assms(1,2) hd by (simp add: process_file_def try_body_def read_header_def)
qed

lemma ineligible_png_loop:
  assumes "readable e p"
    and "prefix [0x89, 0x50, 0x4E, 0x47] bs"
    and "decode e bs = Some img"
    and "mode img \<noteq> ''RGB'' \<or>
         (\<exists>r g b a rest. pixels img = Some ((r, g, b, a) # rest) \<and>
            (r \<le> 240 \<or> g \<le> 240 \<or> b \<le> 240))"
    and "\<forall>q \<in> set found. p \<noteq> q @ ''.import''"
    and "files s p = Some bs"
  shows "files (fix_icons_loop e found s) p = Some bs \<and>
         fix_icons_loop e found s = fix_icons_loop e (removeAll p found) s"
  using assms(5,6)
proof (induction found arbitrary: s)
  case Nil
  then show ?case by simp
next
  case (Cons q rest)
  have names: "\<forall>q \<in> set rest. p \<noteq> q @ ''.import''"
    using Cons.prems(1) by simp
  show ?case
  proof (cases "q = p")
    case True
    then have same: "process_file e q s = s"
      using ineligible_png_step [OF Cons.prems(2) assms(1-4)] by simp
    note ih = Cons.IH [OF names Cons.prems(2)]
    show ?thesis
    proof (intro conjI)
      show "files (fix_icons_loop e (q # rest) s) p = Some bs"
        using ih [THEN conjunct1] same by simp
      show "fix_icons_loop e (q # rest) s = fix_icons_loop e (removeAll p (q # rest)) s"
        using ih [THEN conjunct2] same True by simp
    qed
  next
    case False
    then have "files (process_file e q s) p = Some bs"
      using Cons.prems process_file_frame [of p q e s] by simp
    note ih = Cons.IH [OF names this]
    show ?thesis
    proof (intro conjI)
      show "files (fix_icons_loop e (q # rest) s) p = Some bs"
        using ih [THEN conjunct1] by simp
      show "fix_icons_loop e (q # rest) s = fix_icons_loop e (removeAll p (q # rest)) s"
        using ih [THEN conjunct2] False by simp
    qed
  qed
qed

text \<open>
  C9. A file that is already a PNG and is opened in a mode other than RGB (every mode
  with an alpha channel is such a mode), or whose pixel at (0, 0) has a colour channel
  at or below 240, is left alone: its iteration changes nothing at all, and a whole run
  over names ending in \<open>.png\<close> leaves its bytes as they were and ends in the state
  of the run without that file, counters included.
\<close>

theorem ineligible_png_untouched:
  assumes "files s p = Some bs" and "readable e p"
    and "prefix [0x89, 0x50, 0x4E, 0x47] bs"
    and "decode e bs = Some img"
    and "mode img \<noteq> ''RGB'' \<or>
         (\<exists>r g b a rest. pixels img = Some ((r, g, b, a) # rest) \<and>
            (r \<le> 240 \<or> g \<le> 240 \<or> b \<le> 240))"
    and "\<forall>q \<in> set found. suffix ''.png'' q" and "p \<in> set found"
  shows "process_file e p s = s \<and>
         files (fix_icons e root_dir found s) p = Some bs \<and>
         fix_icons e root_dir found s = fix_icons e root_dir (removeAll p found) s"
proof -
  let ?s0 = "say (Scanning root_dir) (s\<lparr>fixed_count := 0, transparent_count := 0\<rparr>)"
  have names: "\<forall>q \<in> set found. p \<noteq> q @ ''.import''"
    using assms(6,7) png_name_not_import by blast
  have "files ?s0 p = Some bs"
    using assms(1) by simp
  note run = ineligible_png_loop [OF assms(2-5) names this]
  show ?thesis
  proof (intro conjI)
    show "process_file e p s = s"
      by (rule ineligible_png_step [OF assms(1-5)])
    show "files (fix_icons e root_dir found s) p = Some bs"
      using run [THEN conjunct1] by (simp add: fix_icons_def Let_def)
    show "fix_icons e root_dir found s = fix_icons e root_dir (removeAll p found) s"
      using run [THEN conjunct2] by (simp add: fix_icons_def Let_def)
  qed
qed

theorem ineligible_png_untouched_witness:
  "files (fresh [''a.png'' \<mapsto> [0x89, 0x50, 0x4E, 0x47, 1, 1, 1, 255, 255, 255, 255]]) ''a.png''
     = Some [0x89, 0x50, 0x4E, 0x47, 1, 1, 1, 255, 255, 255, 255] \<and>
   readable raw_env ''a.png'' \<and>
   prefix [0x89, 0x50, 0x4E, 0x47] [0x89, 0x50, 0x4E, 0x47, 1, 1, 1, 255, 255, 255, 255 :: byte] \<and>
   decode raw_env [0x89, 0x50, 0x4E, 0x47, 1, 1, 1, 255, 255, 255, 255]
     = Some \<lparr>mode = ''RGBA'', dims = (1, 1), pixels = Some [(255, 255, 255, 255)]\<rparr> \<and>
   suffix ''.png'' ''a.png'' \<and>
   process_file raw_env ''a.png''
       (fresh [''a.png'' \<mapsto> [0x89, 0x50, 0x4E, 0x47, 1, 1, 1, 255, 255, 255, 255]])
     = fresh [''a.png'' \<mapsto> [0x89, 0x50, 0x4E, 0x47, 1, 1, 1, 255, 255, 255, 255]] \<and>
   files (fix_icons raw_env ''icons'' [''a.png'']
       (fresh [''a.png'' \<mapsto> [0x89, 0x50, 0x4E, 0x47, 1, 1, 1, 255, 255, 255, 255]])) ''a.png''
     = Some [0x89, 0x50, 0x4E, 0x47, 1, 1, 1, 255, 255, 255, 255]"
proof -
  have dec: "decode raw_env [0x89, 0x50, 0x4E, 0x47, 1, 1, 1, 255, 255, 255, 255]
     = Some \<lparr>mode = ''RGBA'', dims = (1, 1), pixels = Some [(255, 255, 255, 255)]\<rparr>"
    by (simp add: raw_defs png_magic_def)
  have sfx: "\<forall>q \<in> set [''a.png'']. suffix ''.png'' q"
    by (simp add: suffix_def)
  show ?thesis
    using ineligible_png_untouched
      [of "fresh [''a.png'' \<mapsto> [0x89, 0x50, 0x4E, 0x47, 1, 1, 1, 255, 255, 255, 255]]"
          "''a.png''" "[0x89, 0x50, 0x4E, 0x47, 1, 1, 1, 255, 255, 255, 255]" raw_env
          "\<lparr>mode = ''RGBA'', dims = (1, 1), pixels = Some [(255, 255, 255, 255)]\<rparr>"
          "[''a.png'']" "''icons''"]
      dec sfx
    by (simp add: fresh_def raw_env_def fix_icons_def say_def)
qed

section \<open>The branches, case by case\<close>

lemmas step_defs =
  Image_open_def load_def make_transparent_def convert_RGBA_def
  getdata_def save_def putdata_def remove_import_def Let_def

lemmas step_splits = sum.split option.split bool.split prod.split

lemmas written_defs = rewrite_result_def repair_result_def try_save_def


lemma sniff_png:
  "prefix [0x89, 0x50, 0x4E, 0x47] bs \<Longrightarrow> sniff (take 4 bs) = PNG"
  using prefix_take4 [of png_magic bs] magic_disjoint [of "take 4 bs"]
  by (auto simp add: sniff_def png_magic_def)

lemma import_not_self [simp]: "p @ ''.import'' \<noteq> p" "p \<noteq> p @ ''.import''"
  by simp_all

text \<open>\<open>rewrite_result\<close> is what \<open>make_transparent\<close> does to the file, and the
  function returns \<open>True\<close> exactly when it has written.\<close>

lemma make_transparent_files:
  "files (snd (make_transparent e img p s))
     = (files s)(p := bytes_after (rewrite_result e p img) (files s p))"
  by (auto simp add: written_defs step_defs split: step_splits)

lemma make_transparent_true:
  "fst (make_transparent e img p s) = Inr True \<longleftrightarrow> (\<exists>bs. rewrite_result e p img = Written bs)"
  by (auto simp add: written_defs step_defs split: step_splits)

lemma try_body_char:
  "(files s p = None \<and> try_body e p s = (Some FileNotFound, s)) \<or>
   (\<exists>bs. files s p = Some bs \<and>
      ((\<not> readable e p \<and> try_body e p s = (Some PermissionDenied, s)) \<or>
       (readable e p \<and>
          ((sniff (take 4 bs) = UNKNOWN \<and> try_body e p s = (None, s)) \<or>
           (sniff (take 4 bs) = JPEG \<and> try_body e p s = jpeg_branch e p s) \<or>
           (sniff (take 4 bs) = PNG \<and> try_body e p s = png_branch e p s)))))"
  by (cases "files s p"; cases "readable e p")
     (auto simp add: try_body_def read_header_def split: encoding.split)

lemma try_body_cases:
  "try_body e p s = (Some FileNotFound, s) \<or> try_body e p s = (Some PermissionDenied, s) \<or>
   try_body e p s = (None, s) \<or> try_body e p s = jpeg_branch e p s \<or>
   try_body e p s = png_branch e p s"
  using try_body_char [of s p e] by blast

lemma jpeg_branch_stuck:
  "files s p = Some bs \<Longrightarrow> readable e p \<Longrightarrow> repair_result e p bs = Kept \<Longrightarrow>
     \<exists>err. jpeg_branch e p s = (Some err, say (DetectedJpeg p) s)"
  by (auto simp add: jpeg_branch_def written_defs step_defs split: option.splits if_splits)

lemma jpeg_branch_emptied:
  "files s p = Some bs \<Longrightarrow> readable e p \<Longrightarrow> repair_result e p bs = Emptied \<Longrightarrow>
     jpeg_branch e p s
       = (Some EncodeFailure, say (DetectedJpeg p) s\<lparr>files := (files s)(p \<mapsto> [])\<rparr>)"
  by (auto simp add: jpeg_branch_def written_defs step_defs say_def
      split: option.splits if_splits)

lemma jpeg_branch_repaired:
  "files s p = Some bs \<Longrightarrow> readable e p \<Longrightarrow> repair_result e p bs = Written bs1 \<Longrightarrow>
     jpeg_branch e p s =
       after_repair e p
         (say (ConvertedToPng p) (say (DetectedJpeg p) s\<lparr>files := (files s)(p \<mapsto> bs1)\<rparr>))"
  by (auto simp add: jpeg_branch_def written_defs step_defs say_def
      split: option.splits if_splits)

lemma png_outputI: "encode_png e m d px = Some bs \<Longrightarrow> png_output e bs"
  unfolding png_output_def by blast

lemma repair_result_encoded:
  "repair_result e p bs = Written bs1 \<Longrightarrow> png_output e bs1"
  by (auto simp add: written_defs split: option.splits if_splits intro: png_outputI)

lemma jpeg_branch_cases:
  obtains (stuck) err where "jpeg_branch e p s = (Some err, say (DetectedJpeg p) s)"
  | (emptied) "jpeg_branch e p s
        = (Some EncodeFailure, say (DetectedJpeg p) s\<lparr>files := (files s)(p \<mapsto> [])\<rparr>)"
      and "files s p \<noteq> None"
  | (repaired) bs1 s3 where "png_output e bs1" and "files s3 = (files s)(p \<mapsto> bs1)"
      and "fixed_count s3 = fixed_count s" and "transparent_count s3 = transparent_count s"
      and "jpeg_branch e p s = after_repair e p s3"
proof (cases "files s p")
  case None
  then have "jpeg_branch e p s = (Some FileNotFound, say (DetectedJpeg p) s)"
    by (simp add: jpeg_branch_def step_defs)
  then show ?thesis by (rule stuck)
next
  case (Some bs)
  show ?thesis
  proof (cases "readable e p")
    case False
    then have "jpeg_branch e p s = (Some PermissionDenied, say (DetectedJpeg p) s)"
      using Some by (simp add: jpeg_branch_def step_defs)
    then show ?thesis by (rule stuck)
  next
    case True
    show ?thesis
    proof (cases "repair_result e p bs")
      case Kept
      then show ?thesis using jpeg_branch_stuck [OF Some True] stuck by blast
    next
      case Emptied
      then show ?thesis using jpeg_branch_emptied [OF Some True] Some emptied by simp
    next
      case (Written bs1)
      let ?s3 = "say (ConvertedToPng p) (say (DetectedJpeg p) s\<lparr>files := (files s)(p \<mapsto> bs1)\<rparr>)"
      show ?thesis
      proof (rule repaired [of bs1 ?s3])
        show "png_output e bs1" using Written by (rule repair_result_encoded)
        show "jpeg_branch e p s = after_repair e p ?s3"
          using jpeg_branch_repaired [OF \<open>files s p = Some bs\<close> True Written] .
      qed simp_all
    qed
  qed
qed

lemma process_file_snd:
  "files (process_file e p s) = files (snd (try_body e p s)) \<and>
   transparent_count (process_file e p s) = transparent_count (snd (try_body e p s)) \<and>
   fixed_count (process_file e p s) = fixed_count (snd (try_body e p s))"
  by (simp add: process_file_def split: prod.split option.split)

lemma png_branch_no_creation:
  "files s x = None \<longrightarrow> files (snd (png_branch e p s)) x = None"
  by (auto simp add: png_branch_def step_defs split: step_splits)

lemma after_repair_no_creation:
  "files s x = None \<longrightarrow> files (snd (after_repair e p s)) x = None"
  by (auto simp add: after_repair_def step_defs split: step_splits)

lemma jpeg_branch_no_creation:
  "files s x = None \<Longrightarrow> files (snd (jpeg_branch e p s)) x = None"
proof (cases "x = p")
  case True
  assume "files s x = None"
  then show ?thesis using True by (simp add: jpeg_branch_def step_defs)
next
  case False
  assume "files s x = None"
  then show ?thesis
    using False after_repair_no_creation [of _ x e p]
    by (cases rule: jpeg_branch_cases [of e p s]) simp_all
qed

lemma process_file_no_creation:
  "files s x = None \<Longrightarrow> files (process_file e p s) x = None"
  using try_body_cases [of e p s] png_branch_no_creation [of s x e p]
    jpeg_branch_no_creation [of s x e p]
  by (auto simp add: process_file_snd)



section \<open>Which images reach \<open>make_transparent\<close>\<close>


lemma Image_open_decode:
  "files s p = Some bs \<Longrightarrow> readable e p \<Longrightarrow>
     Image_open e p s = (case decode e bs of None \<Rightarrow> Inl UnidentifiedImage | Some img \<Rightarrow> Inr img)"
  by (simp add: Image_open_def)




section \<open>Companion files and exceptions\<close>














lemma png_branch_written:
  "files (snd (png_branch e p s)) p = files s p \<or>
   files (snd (png_branch e p s)) p = Some [] \<or>
   (\<exists>bs. files (snd (png_branch e p s)) p = Some bs \<and> png_output e bs)"
  by (auto simp add: png_branch_def step_defs split: step_splits intro: png_outputI)

lemma after_repair_written:
  "files (snd (after_repair e p s)) p = files s p \<or>
   files (snd (after_repair e p s)) p = Some [] \<or>
   (\<exists>bs. files (snd (after_repair e p s)) p = Some bs \<and> png_output e bs)"
  by (auto simp add: after_repair_def step_defs split: step_splits intro: png_outputI)

lemma jpeg_branch_written:
  "files (snd (jpeg_branch e p s)) p = files s p \<or>
   files (snd (jpeg_branch e p s)) p = Some [] \<or>
   (\<exists>bs. files (snd (jpeg_branch e p s)) p = Some bs \<and> png_output e bs)"
proof (cases rule: jpeg_branch_cases [of e p s])
  case (stuck err)
  then show ?thesis by simp
next
  case emptied
  then show ?thesis by simp
next
  case (repaired bs1 s3)
  then show ?thesis using after_repair_written [of e p s3] by auto
qed

lemma try_body_written:
  "files (snd (try_body e p s)) p = files s p \<or>
   files (snd (try_body e p s)) p = Some [] \<or>
   (\<exists>bs. files (snd (try_body e p s)) p = Some bs \<and> png_output e bs)"
  using try_body_cases [of e p s] png_branch_written [of e p s] jpeg_branch_written [of e p s]
  by auto









section \<open>Running twice\<close>

lemma after_repair_bytes:
  "files (snd (after_repair e p s)) p =
     (case Image_open e p s of
        Inl err \<Rightarrow> files s p
      | Inr img \<Rightarrow> bytes_after (rewrite_result e p img) (files s p))"
  by (auto simp add: after_repair_def written_defs step_defs split: step_splits)

lemma png_branch_bytes:
  "files (snd (png_branch e p s)) p =
     (case Image_open e p s of
        Inl err \<Rightarrow> files s p
      | Inr img \<Rightarrow>
          if mode img = ''RGB''
          then bytes_after (rewrite_result e p img) (files s p)
          else files s p)"
  by (auto simp add: png_branch_def written_defs step_defs split: step_splits)

lemma png_branch_keeps:
  "(case Image_open e p s of
      Inl err \<Rightarrow> True
    | Inr img \<Rightarrow> mode img \<noteq> ''RGB'' \<or> rewrite_result e p img = Kept) \<longrightarrow>
   snd (png_branch e p s) = s"
  by (auto simp add: png_branch_def written_defs step_defs split: step_splits if_splits)

lemma png_branch_import_kept:
  "files (snd (png_branch e p s)) (p @ ''.import'') = files s (p @ ''.import'') \<or>
   files (snd (png_branch e p s)) (p @ ''.import'') = None"
  by (auto simp add: png_branch_def step_defs split: step_splits)

lemma after_repair_import_kept:
  "files (snd (after_repair e p s)) (p @ ''.import'') = files s (p @ ''.import'') \<or>
   files (snd (after_repair e p s)) (p @ ''.import'') = None"
  by (auto simp add: after_repair_def step_defs split: step_splits)

lemma jpeg_branch_import_kept:
  "files (snd (jpeg_branch e p s)) (p @ ''.import'') = files s (p @ ''.import'') \<or>
   files (snd (jpeg_branch e p s)) (p @ ''.import'') = None"
proof (cases rule: jpeg_branch_cases [of e p s])
  case (stuck err)
  then show ?thesis by simp
next
  case emptied
  then show ?thesis by simp
next
  case (repaired bs1 s3)
  then show ?thesis using after_repair_import_kept [of e p s3] by simp
qed

lemma other_file:
  assumes "x \<noteq> p"
  shows "files (process_file e p s) x = files s x \<or> files (process_file e p s) x = None"
proof (cases "x = p @ ''.import''")
  case True
  then show ?thesis
    using try_body_cases [of e p s] png_branch_import_kept [of e p s]
      jpeg_branch_import_kept [of e p s]
    by (auto simp add: process_file_snd)
next
  case False
  then show ?thesis using assms process_file_frame [of x p e s] by simp
qed

lemma settled_quiet_body:
  assumes "settled e p (files s p)"
  shows "files (snd (try_body e p s)) = files s \<and>
         fixed_count (snd (try_body e p s)) = fixed_count s \<and>
         transparent_count (snd (try_body e p s)) = transparent_count s"
proof -
  consider (a) "try_body e p s = (Some FileNotFound, s)"
    | (b) "try_body e p s = (Some PermissionDenied, s)"
    | (c) "try_body e p s = (None, s)"
    | (j) bs where "files s p = Some bs" and "readable e p" and "sniff (take 4 bs) = JPEG"
        and "try_body e p s = jpeg_branch e p s"
    | (g) bs where "files s p = Some bs" and "readable e p" and "sniff (take 4 bs) = PNG"
        and "try_body e p s = png_branch e p s"
    using try_body_char [of s p e] by blast
  then show ?thesis
  proof cases
    case (j bs)
    then have "repair_result e p bs = Kept"
      using assms by (simp add: settled_def)
    then obtain err where "jpeg_branch e p s = (Some err, say (DetectedJpeg p) s)"
      using jpeg_branch_stuck [OF j(1,2)] by blast
    then show ?thesis using j(4) by simp
  next
    case (g bs)
    then have "case decode e bs of None \<Rightarrow> True
        | Some img \<Rightarrow> mode img \<noteq> ''RGB'' \<or> rewrite_result e p img = Kept"
      using assms by (simp add: settled_def)
    then have "snd (png_branch e p s) = s"
      using png_branch_keeps [of e p s] Image_open_decode [OF g(1,2)]
      by (simp split: option.splits)
    then show ?thesis using g(4) by simp
  qed simp_all
qed

lemma settled_quiet:
  assumes "settled e p (files s p)"
  shows "files (process_file e p s) = files s \<and>
         fixed_count (process_file e p s) = fixed_count s \<and>
         transparent_count (process_file e p s) = transparent_count s"
  using settled_quiet_body [OF assms] by (simp add: process_file_snd)

lemma settled_emptied: "settled e p (Some [])"
  by (simp add: settled_def sniff_def jpeg_magic_def png_magic_def)

lemma settled_written:
  assumes "codec_ok e" and "rewrite_result e p img \<noteq> Kept"
  shows "settled e p (bytes_after (rewrite_result e p img) c)"
proof (cases "rewrite_result e p img")
  case Kept
  then show ?thesis using assms(2) by simp
next
  case Emptied
  then show ?thesis by (simp add: settled_emptied)
next
  case (Written bs2)
  then obtain d where enc: "encode_png e ''RGBA'' (dims img) (newData d) = Some bs2"
    by (auto simp add: written_defs split: option.splits if_splits)
  then have "prefix png_magic bs2"
    using assms(1) unfolding codec_ok_def by blast
  then have "sniff (take 4 bs2) = PNG"
    using sniff_png [of bs2] by (simp add: png_magic_def)
  moreover have "mode img' \<noteq> ''RGB''" if "decode e bs2 = Some img'" for img'
    using assms(1) enc that unfolding codec_ok_def by blast
  ultimately show ?thesis
    using Written by (simp add: settled_def split: option.splits)
qed

lemma settled_repaired:
  assumes ok: "codec_ok e" and rd: "readable e p"
    and out: "png_output e bs1" and at: "files s3 p = Some bs1"
  shows "settled e p (files (snd (after_repair e p s3)) p)"
proof -
  have "prefix png_magic bs1"
    using ok out unfolding codec_ok_def png_output_def by blast
  then have png: "sniff (take 4 bs1) = PNG"
    using sniff_png [of bs1] by (simp add: png_magic_def)
  show ?thesis
  proof (cases "decode e bs1")
    case None
    then have "files (snd (after_repair e p s3)) p = Some bs1"
      using at rd by (simp add: after_repair_bytes Image_open_decode)
    then show ?thesis using png None by (simp add: settled_def)
  next
    case (Some img)
    show ?thesis
    proof (cases "rewrite_result e p img = Kept")
      case True
      then have "files (snd (after_repair e p s3)) p = Some bs1"
        using at rd Some by (simp add: after_repair_bytes Image_open_decode)
      then show ?thesis using png Some True by (simp add: settled_def)
    next
      case False
      have "files (snd (after_repair e p s3)) p
          = bytes_after (rewrite_result e p img) (files s3 p)"
        using at rd Some by (simp add: after_repair_bytes Image_open_decode)
      then show ?thesis using settled_written [OF ok False] by simp
    qed
  qed
qed

lemma settled_after:
  assumes ok: "codec_ok e"
  shows "settled e p (files (process_file e p s) p)"
proof (cases "settled e p (files s p)")
  case True
  then show ?thesis using settled_quiet [OF True] by simp
next
  case False
  then obtain bs where at: "files s p = Some bs" and rd: "readable e p"
    by (auto simp add: settled_def split: option.splits)
  show ?thesis
  proof (cases "sniff (take 4 bs)")
    case UNKNOWN
    then show ?thesis using False at by (simp add: settled_def)
  next
    case JPEG
    have body: "try_body e p s = jpeg_branch e p s"
      using JPEG at rd by (simp add: try_body_def read_header_def)
    show ?thesis
    proof (cases "repair_result e p bs")
      case Kept
      then show ?thesis using False at rd JPEG by (simp add: settled_def)
    next
      case Emptied
      then show ?thesis
        using jpeg_branch_emptied [OF at rd Emptied] body
        by (simp add: process_file_snd settled_emptied)
    next
      case (Written bs1)
      let ?s3 = "say (ConvertedToPng p) (say (DetectedJpeg p) s\<lparr>files := (files s)(p \<mapsto> bs1)\<rparr>)"
      have "try_body e p s = after_repair e p ?s3"
        using jpeg_branch_repaired [OF at rd Written] body by simp
      moreover have "settled e p (files (snd (after_repair e p ?s3)) p)"
        by (rule settled_repaired [OF ok rd repair_result_encoded [OF Written]]) simp
      ultimately show ?thesis by (simp add: process_file_snd)
    qed
  next
    case PNG
    then obtain img where dec: "decode e bs = Some img" and rgb: "mode img = ''RGB''"
      and rw: "rewrite_result e p img \<noteq> Kept"
      using False at rd by (auto simp add: settled_def split: option.splits)
    have "try_body e p s = png_branch e p s"
      using PNG at rd by (simp add: try_body_def read_header_def)
    moreover have "files (snd (png_branch e p s)) p
        = bytes_after (rewrite_result e p img) (files s p)"
      using at rd dec rgb by (simp add: png_branch_bytes Image_open_decode)
    ultimately show ?thesis using settled_written [OF ok rw] by (simp add: process_file_snd)
  qed
qed

lemma settled_preserved:
  assumes ok: "codec_ok e" and "settled e q (files s q)"
  shows "settled e q (files (process_file e p s) q)"
proof (cases "q = p")
  case True
  then show ?thesis using settled_after [OF ok] by simp
next
  case False
  then show ?thesis
    using other_file [of q p e s] assms(2) by (auto simp add: settled_def)
qed

lemma loop_preserves_settled:
  assumes ok: "codec_ok e"
  shows "settled e q (files s q) \<Longrightarrow> settled e q (files (fix_icons_loop e found s) q)"
  by (induction found arbitrary: s) (simp_all add: settled_preserved [OF ok])

lemma loop_settles:
  assumes ok: "codec_ok e"
  shows "\<forall>q \<in> set found. settled e q (files (fix_icons_loop e found s) q)"
proof (induction found arbitrary: s)
  case Nil
  then show ?case by simp
next
  case (Cons p rest)
  have "settled e p (files (fix_icons_loop e rest (process_file e p s)) p)"
    using loop_preserves_settled [OF ok settled_after [OF ok]] .
  then show ?case using Cons.IH [of "process_file e p s"] by simp
qed

lemma loop_quiet:
  "\<forall>q \<in> set found. settled e q (files s q) \<Longrightarrow>
     files (fix_icons_loop e found s) = files s \<and>
     fixed_count (fix_icons_loop e found s) = fixed_count s \<and>
     transparent_count (fix_icons_loop e found s) = transparent_count s"
proof (induction found arbitrary: s)
  case Nil
  then show ?case by simp
next
  case (Cons p rest)
  have q: "files (process_file e p s) = files s \<and>
         fixed_count (process_file e p s) = fixed_count s \<and>
         transparent_count (process_file e p s) = transparent_count s"
    using settled_quiet [of e p s] Cons.prems by simp
  then have "\<forall>q \<in> set rest. settled e q (files (process_file e p s) q)"
    using Cons.prems by simp
  then show ?case using Cons.IH [of "process_file e p s"] q by simp
qed

lemma process_file_exists_kept:
  assumes "x \<noteq> p @ ''.import''"
  shows "files (process_file e p s) x = None \<longleftrightarrow> files s x = None"
proof (cases "x = p")
  case True
  then show ?thesis
    using try_body_written [of e p s] process_file_no_creation [of s p e p]
    by (auto simp add: process_file_snd)
next
  case False
  then show ?thesis using assms process_file_frame [of x p e s] by simp
qed

lemma loop_exists_kept:
  "\<forall>q. x \<noteq> q @ ''.import'' \<Longrightarrow>
     files (fix_icons_loop e found s) x = None \<longleftrightarrow> files s x = None"
  by (induction found arbitrary: s) (simp_all add: process_file_exists_kept)

text \<open>
  C3. With a codec whose encoder writes the PNG magic number and whose decoder does not
  open in mode RGB what was saved in mode RGBA, a second run over the same list leaves
  every file as the first run left it and ends with both counters at zero. The list is
  the same for the second run, since a run neither creates nor removes a file whose name
  ends in \<open>.png\<close>. The access rights are those of the environment and do not change.
\<close>

theorem second_run_changes_nothing:
  assumes "\<forall>m d px bs. encode_png e m d px = Some bs \<longrightarrow> prefix [0x89, 0x50, 0x4E, 0x47] bs"
    and "\<forall>d px bs img. encode_png e ''RGBA'' d px = Some bs \<and> decode e bs = Some img
           \<longrightarrow> mode img \<noteq> ''RGB''"
  shows "files (fix_icons e root_dir found (fix_icons e root_dir found s))
           = files (fix_icons e root_dir found s) \<and>
         fixed_count (fix_icons e root_dir found (fix_icons e root_dir found s)) = 0 \<and>
         transparent_count (fix_icons e root_dir found (fix_icons e root_dir found s)) = 0 \<and>
         (\<forall>x. suffix ''.png'' x \<longrightarrow>
            (files (fix_icons e root_dir found s) x = None \<longleftrightarrow> files s x = None))"
proof -
  have ok: "codec_ok e"
    using assms unfolding codec_ok_def png_magic_def by blast
  let ?first = "fix_icons e root_dir found s"
  let ?s0 = "say (Scanning root_dir) (?first\<lparr>fixed_count := 0, transparent_count := 0\<rparr>)"
  have "\<forall>q \<in> set found. settled e q (files ?first q)"
    using loop_settles [OF ok, of found] by (simp add: fix_icons_def Let_def)
  then have "\<forall>q \<in> set found. settled e q (files ?s0 q)"
    by simp
  note again = loop_quiet [OF this]
  have names: "files ?first x = None \<longleftrightarrow> files s x = None" if "suffix ''.png'' x" for x
  proof -
    have "\<forall>q. x \<noteq> q @ ''.import''"
      using that png_name_not_import by blast
    then show ?thesis
      using loop_exists_kept [of x e found] by (simp add: fix_icons_def Let_def)
  qed
  show ?thesis
    using again names by (simp add: fix_icons_def [of e root_dir found ?first] Let_def)
qed

theorem second_run_changes_nothing_witness:
  "fixed_count (fix_icons raw_env ''icons'' [''a.png'', ''b.png'']
     (fresh [''a.png'' \<mapsto> white_png, ''b.png'' \<mapsto> white_jpg])) = 1 \<and>
   transparent_count (fix_icons raw_env ''icons'' [''a.png'', ''b.png'']
     (fresh [''a.png'' \<mapsto> white_png, ''b.png'' \<mapsto> white_jpg])) = 2 \<and>
   files (fix_icons raw_env ''icons'' [''a.png'', ''b.png'']
     (fix_icons raw_env ''icons'' [''a.png'', ''b.png'']
       (fresh [''a.png'' \<mapsto> white_png, ''b.png'' \<mapsto> white_jpg])))
   = files (fix_icons raw_env ''icons'' [''a.png'', ''b.png'']
       (fresh [''a.png'' \<mapsto> white_png, ''b.png'' \<mapsto> white_jpg])) \<and>
   fixed_count (fix_icons raw_env ''icons'' [''a.png'', ''b.png'']
     (fix_icons raw_env ''icons'' [''a.png'', ''b.png'']
       (fresh [''a.png'' \<mapsto> white_png, ''b.png'' \<mapsto> white_jpg]))) = 0 \<and>
   transparent_count (fix_icons raw_env ''icons'' [''a.png'', ''b.png'']
     (fix_icons raw_env ''icons'' [''a.png'', ''b.png'']
       (fresh [''a.png'' \<mapsto> white_png, ''b.png'' \<mapsto> white_jpg]))) = 0"
proof -
  have magic: "\<forall>m d px bs. encode_png raw_env m d px = Some bs
      \<longrightarrow> prefix [0x89, 0x50, 0x4E, 0x47] bs"
    by (auto simp add: raw_env_def raw_encode_png_def png_magic_def split: option.splits)
  have rgba: "\<forall>d px bs img. encode_png raw_env ''RGBA'' d px = Some bs \<and>
      decode raw_env bs = Some img \<longrightarrow> mode img \<noteq> ''RGB''"
    by (auto simp add: raw_env_def raw_encode_png_def raw_decode_def png_magic_def
        mode_tag_def png_tag_mode_def)
  have first: "fixed_count (fix_icons raw_env ''icons'' [''a.png'', ''b.png'']
       (fresh [''a.png'' \<mapsto> white_png, ''b.png'' \<mapsto> white_jpg])) = 1 \<and>
     transparent_count (fix_icons raw_env ''icons'' [''a.png'', ''b.png'']
       (fresh [''a.png'' \<mapsto> white_png, ''b.png'' \<mapsto> white_jpg])) = 2"
    by (simp add: fix_icons_def run_defs raw_defs)
  from second_run_changes_nothing [OF magic rgba, of "''icons''" "[''a.png'', ''b.png'']"
      "fresh [''a.png'' \<mapsto> white_png, ''b.png'' \<mapsto> white_jpg]"]
  show ?thesis
    using first by simp
qed

end
